theory Spec2Isabelle
  imports
    Main
    "HOL-Library.Char_ord"
    "HOL-Library.List_Lexorder"
    "HOL-Library.Product_Lexorder"
begin

section \<open>Strings\<close>

text \<open>
  A Python \<open>str\<close> is modelled by its UTF-8 encoding, one \<^typ>\<open>char\<close> per byte.
  Python compares strings code point by code point; on UTF-8 that is the byte-wise
  lexicographic order, which is the order of \<^typ>\<open>string\<close> here.
\<close>

text \<open>
  \<open>str.lower\<close> on the ASCII letters. The source only uses \<open>lower\<close> in front of a
  \<open>startswith\<close> test against ASCII prefixes; a non-ASCII code point never lower-cases to
  text that can match inside one of those prefixes, so the ASCII letters decide the test.
\<close>

definition between :: "char \<Rightarrow> char \<Rightarrow> char \<Rightarrow> bool" where
  "between lo hi c = (lo \<le> c \<and> c \<le> hi)"

definition lower_char :: "char \<Rightarrow> char" where
  "lower_char c =
     (if between (CHR ''A'') (CHR ''Z'') c then char_of (of_char c + (32::nat)) else c)"

definition lower :: "string \<Rightarrow> string" where
  "lower s = map lower_char s"

text \<open>\<open>s.startswith(p)\<close> for one prefix, and for a tuple of prefixes.\<close>

definition startswith :: "string \<Rightarrow> string \<Rightarrow> bool" where
  "startswith s p = (take (length p) s = p)"

definition startswith_any :: "string \<Rightarrow> string list \<Rightarrow> bool" where
  "startswith_any s ps = list_ex (startswith s) ps"

section \<open>\<open>role_priority\<close>\<close>

text \<open>
  \<^verbatim>\<open>
  def role_priority(emails):
      if not emails:
          return []
      roles = ("info@", "contact@", "sales@", "admin@", "support@", "help@")
      return sorted(set(emails), key=lambda e: (not e.lower().startswith(roles), e))
  \<close>
  The sort key is a pair; Python orders pairs lexicographically with \<open>False < True\<close>.
  \<open>set(emails)\<close> is enumerated here in the order of \<^const>\<open>remdups\<close>; the keys of
  distinct strings differ, so the sorted result is the same for every enumeration.
\<close>

definition roles :: "string list" where
  "roles = [''info@'', ''contact@'', ''sales@'', ''admin@'', ''support@'', ''help@'']"

definition is_role :: "string \<Rightarrow> bool" where
  "is_role e = startswith_any (lower e) roles"

definition rank_key :: "string \<Rightarrow> bool \<times> string" where
  "rank_key e = (\<not> is_role e, e)"

definition role_priority :: "string list \<Rightarrow> string list" where
  "role_priority emails =
     (if emails = [] then [] else sort_key rank_key (remdups emails))"

text \<open>
  The tie-break as the specification words it, for comparison with \<^const>\<open>rank_key\<close>:
  role membership first, then the lower-cased address.
\<close>

definition spec_rank_key :: "string \<Rightarrow> bool \<times> string" where
  "spec_rank_key e = (\<not> is_role e, lower e)"

section \<open>Whitespace and \<open>str.strip\<close>\<close>

text \<open>
  The code points for which \<open>str.isspace\<close> holds, in UTF-8: U+0009 to U+000D,
  U+001C to U+0020, U+0085, U+00A0, U+1680, U+2000 to U+200A, U+2028, U+2029, U+202F,
  U+205F and U+3000.
\<close>

definition whitespace :: "string list" where
  "whitespace =
     [[CHR 0x09], [CHR 0x0A], [CHR 0x0B], [CHR 0x0C], [CHR 0x0D],
      [CHR 0x1C], [CHR 0x1D], [CHR 0x1E], [CHR 0x1F], [CHR 0x20],
      [CHR 0xC2, CHR 0x85], [CHR 0xC2, CHR 0xA0],
      [CHR 0xE1, CHR 0x9A, CHR 0x80],
      [CHR 0xE2, CHR 0x80, CHR 0x80], [CHR 0xE2, CHR 0x80, CHR 0x81],
      [CHR 0xE2, CHR 0x80, CHR 0x82], [CHR 0xE2, CHR 0x80, CHR 0x83],
      [CHR 0xE2, CHR 0x80, CHR 0x84], [CHR 0xE2, CHR 0x80, CHR 0x85],
      [CHR 0xE2, CHR 0x80, CHR 0x86], [CHR 0xE2, CHR 0x80, CHR 0x87],
      [CHR 0xE2, CHR 0x80, CHR 0x88], [CHR 0xE2, CHR 0x80, CHR 0x89],
      [CHR 0xE2, CHR 0x80, CHR 0x8A],
      [CHR 0xE2, CHR 0x80, CHR 0xA8], [CHR 0xE2, CHR 0x80, CHR 0xA9],
      [CHR 0xE2, CHR 0x80, CHR 0xAF], [CHR 0xE2, CHR 0x81, CHR 0x9F],
      [CHR 0xE3, CHR 0x80, CHR 0x80]]"

definition endswith :: "string \<Rightarrow> string \<Rightarrow> bool" where
  "endswith s p = (length p \<le> length s \<and> drop (length s - length p) s = p)"

text \<open>The number of bytes of the whitespace code point that opens (closes) \<open>s\<close>; 0 if none does.\<close>

definition space_prefix :: "string \<Rightarrow> nat" where
  "space_prefix s = (case find (startswith s) whitespace of None \<Rightarrow> 0 | Some w \<Rightarrow> length w)"

definition space_suffix :: "string \<Rightarrow> nat" where
  "space_suffix s = (case find (endswith s) whitespace of None \<Rightarrow> 0 | Some w \<Rightarrow> length w)"

function lstrip :: "string \<Rightarrow> string" where
  "lstrip s = (if space_prefix s = 0 then s else lstrip (drop (space_prefix s) s))"
  by pat_completeness auto
termination
proof (relation "measure length")
  fix s :: string
  assume "space_prefix s \<noteq> 0"
  then have "s \<noteq> []"
    by (auto simp: space_prefix_def startswith_def whitespace_def)
  with \<open>space_prefix s \<noteq> 0\<close> show "(drop (space_prefix s) s, s) \<in> measure length"
    by simp
qed simp

function rstrip :: "string \<Rightarrow> string" where
  "rstrip s = (if space_suffix s = 0 then s else rstrip (take (length s - space_suffix s) s))"
  by pat_completeness auto
termination
proof (relation "measure length")
  fix s :: string
  assume "space_suffix s \<noteq> 0"
  then have "s \<noteq> []"
    by (auto simp: space_suffix_def endswith_def whitespace_def)
  with \<open>space_suffix s \<noteq> 0\<close> show "(take (length s - space_suffix s) s, s) \<in> measure length"
    by simp
qed simp

declare lstrip.simps [simp del] rstrip.simps [simp del]

definition strip :: "string \<Rightarrow> string" where
  "strip s = rstrip (lstrip s)"

text \<open>\<open>sep.join(xs)\<close>.\<close>

fun join :: "string \<Rightarrow> string list \<Rightarrow> string" where
  "join sep [] = []"
| "join sep [x] = x"
| "join sep (x # y # ys) = x @ sep @ join sep (y # ys)"

text \<open>\<open>dict.fromkeys(xs)\<close>, read as a list of keys: the first occurrence of each entry, in order.\<close>

fun fromkeys :: "'a list \<Rightarrow> 'a list" where
  "fromkeys [] = []"
| "fromkeys (x # xs) = x # fromkeys (removeAll x xs)"

section \<open>The pipeline\<close>

subsection \<open>Configuration, collaborators, table rows\<close>

text \<open>
  The sidebar widgets are module-level variables that \<open>pipeline\<close> reads: the region
  (\<open>sido\<close>), the sub-region text (\<open>sggu\<close>), the industry choice, the role-only
  checkbox and the item-count slider.
\<close>

record config =
  sido :: string
  sggu :: string
  industry :: string
  only_role :: bool
  limit :: nat

text \<open>
  What a call can raise. \<open>except Exception\<close> catches the first kind only; an exception
  that derives from \<open>BaseException\<close> alone (a cancellation, for one) passes through it.
\<close>

datatype exn = Exception string | BaseException string

text \<open>
  A cell of the data frame. The columns the pipeline reads hold text, but a cell can be
  missing: \<open>NaN\<close> (what \<open>read_csv\<close> gives for a blank field) or \<open>None\<close>. Cells of
  other types are outside the model.
\<close>

datatype cell = Text string | NaN | NoneCell

text \<open>
  \<open>str(c)\<close>, the truth value of \<open>c\<close>, and \<open>str(c or "")\<close>. \<open>NaN\<close> is a float other
  than zero, so it counts as true and \<open>str(c or "")\<close> gives \<open>nan\<close> for it.
\<close>

fun py_str :: "cell \<Rightarrow> string" where
  "py_str (Text s) = s"
| "py_str NaN = ''nan''"
| "py_str NoneCell = ''None''"

fun truthy :: "cell \<Rightarrow> bool" where
  "truthy (Text s) = (s \<noteq> [])"
| "truthy NaN = True"
| "truthy NoneCell = False"

definition str_or_empty :: "cell \<Rightarrow> string" where
  "str_or_empty c = (if truthy c then py_str c else [])"

text \<open>
  The functions imported from \<open>connectors\<close> and \<open>utils\<close> are not part of the source
  at hand; they are parameters. A collaborator is a function of its arguments that gives
  the reply to a call or the exception the call raises. The search may reply \<open>None\<close>.
  The crawl gets the homepage cell as it is; its second argument is \<open>max_pages\<close>.
\<close>

record collaborators =
  find_homepage_via_bing :: "string \<Rightarrow> exn + string option"
  crawl_site_for_emails :: "cell \<Rightarrow> nat \<Rightarrow> exn + string list"
  extract_emails_from_text :: "string \<Rightarrow> exn + string list"

text \<open>
  A row of the data frame \<open>df\<close> once the column clean-up (lines 52 to 66) is done: the
  columns for company name, address, homepage, e-mail and remarks exist.
\<close>

record listing =
  company_name :: cell
  address :: cell
  homepage :: cell
  email :: cell
  remarks :: cell

text \<open>A row of the returned table \<open>out\<close>, columns in the order of lines 101 to 104.\<close>

record out_row =
  out_region :: string
  out_industry :: string
  out_company :: cell
  out_address :: cell
  out_emails :: cell
  out_homepage :: cell
  out_collected :: string

subsection \<open>Loops that await a collaborator\<close>

text \<open>
  A \<open>for\<close> loop that appends one result per row; the first exception that escapes the
  body ends the loop and the function.
\<close>

fun for_each :: "('a \<Rightarrow> exn + 'b) \<Rightarrow> 'a list \<Rightarrow> exn + 'b list" where
  "for_each body [] = Inr []"
| "for_each body (x # xs) =
     (case body x of
        Inl e \<Rightarrow> Inl e
      | Inr y \<Rightarrow> (case for_each body xs of Inl e \<Rightarrow> Inl e | Inr ys \<Rightarrow> Inr (y # ys)))"

subsection \<open>Stage 2: homepage lookup (lines 69 to 78)\<close>

text \<open>The words between the name and the region in the search query, as UTF-8.\<close>

definition official_homepage :: string where
  "official_homepage =
     [CHR 0xEA, CHR 0xB3, CHR 0xB5, CHR 0xEC, CHR 0x8B, CHR 0x9D, CHR 0x20,
      CHR 0xED, CHR 0x99, CHR 0x88, CHR 0xED, CHR 0x8E, CHR 0x98, CHR 0xEC, CHR 0x9D, CHR 0xB4,
      CHR 0xEC, CHR 0xA7, CHR 0x80]"

definition search_query :: "config \<Rightarrow> string \<Rightarrow> string" where
  "search_query cfg name =
     strip (name @ '' '' @ official_homepage @ '' '' @ sido cfg @ '' '' @ sggu cfg)"

text \<open>
  \<^verbatim>\<open>
  name = str(row.get(<company>,"")).strip()
  hp = str(row.get(<homepage>,"") or "").strip()
  if not hp:
      q = f"{name} <official homepage> {sido} {sggu}".strip()
      hp = await find_homepage_via_bing(q)
  homepages.append(hp or "")
  \<close>
  The call is not inside a \<open>try\<close>: what it raises leaves the loop.
\<close>

definition homepage_step :: "config \<Rightarrow> collaborators \<Rightarrow> listing \<Rightarrow> exn + string" where
  "homepage_step cfg env row =
     (let name = strip (py_str (company_name row));
          hp = strip (str_or_empty (homepage row))
      in if hp = [] then
           (case find_homepage_via_bing env (search_query cfg name) of
              Inl e \<Rightarrow> Inl e
            | Inr found \<Rightarrow> Inr (case found of None \<Rightarrow> [] | Some url \<Rightarrow> url))
         else Inr hp)"

text \<open>\<open>df.loc[:len(homepages)-1, <homepage>] = homepages\<close>: the leading rows get the new cells.\<close>

fun set_homepages :: "string list \<Rightarrow> listing list \<Rightarrow> listing list" where
  "set_homepages (h # hs) (r # rs) = r\<lparr>homepage := Text h\<rparr> # set_homepages hs rs"
| "set_homepages hs rs = rs"

subsection \<open>Stage 3: e-mail extraction (lines 81 to 98)\<close>

text \<open>
  \<^verbatim>\<open>
  emails = []
  if hp:
      try:
          emails = await crawl_site_for_emails(hp, max_pages=5)
      except Exception:
          emails = []
  \<close>
\<close>

definition crawl_emails :: "collaborators \<Rightarrow> cell \<Rightarrow> exn + string list" where
  "crawl_emails env hp =
     (if truthy hp then
        (case crawl_site_for_emails env hp 5 of
           Inl (Exception m) \<Rightarrow> Inr []
         | Inl (BaseException m) \<Rightarrow> Inl (BaseException m)
         | Inr found \<Rightarrow> Inr found)
      else Inr [])"

text \<open>
  \<^verbatim>\<open>
  text_blob = str(row.get(<notes>, "") or "")
  if not emails and text_blob:
      emails = extract_emails_from_text(text_blob)
  \<close>
  This call is outside the \<open>try\<close>.
\<close>

definition collect_emails :: "collaborators \<Rightarrow> listing \<Rightarrow> exn + string list" where
  "collect_emails env row =
     (case crawl_emails env (homepage row) of
        Inl e \<Rightarrow> Inl e
      | Inr emails \<Rightarrow>
          (let text_blob = str_or_empty (remarks row)
           in if emails = [] \<and> text_blob \<noteq> [] then extract_emails_from_text env text_blob
              else Inr emails))"

text \<open>
  \<^verbatim>\<open>
  if only_role:
      emails = [e for e in emails
                if any(e.lower().startswith(x)
                       for x in ["info@","contact@","sales@","admin@","support@"])]
  \<close>
\<close>

definition filter_prefixes :: "string list" where
  "filter_prefixes = [''info@'', ''contact@'', ''sales@'', ''admin@'', ''support@'']"

definition passes_filter :: "string \<Rightarrow> bool" where
  "passes_filter e = list_ex (\<lambda>x. startswith (lower e) x) filter_prefixes"

definition role_filter :: "config \<Rightarrow> string list \<Rightarrow> string list" where
  "role_filter cfg emails = (if only_role cfg then filter passes_filter emails else emails)"

text \<open>\<open>emails_col.append(", ".join(dict.fromkeys(emails)))\<close>\<close>

definition emails_cell :: "string list \<Rightarrow> string" where
  "emails_cell emails = join '', '' (fromkeys emails)"

definition email_step :: "config \<Rightarrow> collaborators \<Rightarrow> listing \<Rightarrow> exn + string" where
  "email_step cfg env row =
     (case collect_emails env row of
        Inl e \<Rightarrow> Inl e
      | Inr emails \<Rightarrow> Inr (emails_cell (role_filter cfg emails)))"

fun set_emails :: "string list \<Rightarrow> listing list \<Rightarrow> listing list" where
  "set_emails (c # cs) (r # rs) = r\<lparr>email := Text c\<rparr> # set_emails cs rs"
| "set_emails cs rs = rs"

subsection \<open>Stage 4: the returned table (lines 101 to 105)\<close>

text \<open>
  \<open>now\<close> is the string that \<open>datetime.now().strftime("%Y-%m-%d %H:%M:%S")\<close> returns at
  line 104, the one place where \<open>pipeline\<close> reads the clock.
\<close>

definition result_row :: "config \<Rightarrow> string \<Rightarrow> listing \<Rightarrow> out_row" where
  "result_row cfg now row =
     \<lparr> out_region = strip (sido cfg @ '' '' @ sggu cfg),
       out_industry = industry cfg,
       out_company = company_name row,
       out_address = address row,
       out_emails = email row,
       out_homepage = homepage row,
       out_collected = now \<rparr>"

text \<open>
  \<open>pipeline\<close> from line 68 on, for the rows of \<open>df\<close>. Both loops run over
  \<open>df.head(limit)\<close>; the table returned is built from all of \<open>df\<close>.
\<close>

definition pipeline ::
  "config \<Rightarrow> collaborators \<Rightarrow> listing list \<Rightarrow> string \<Rightarrow> exn + out_row list" where
  "pipeline cfg env df now =
     (case for_each (homepage_step cfg env) (take (limit cfg) df) of
        Inl e \<Rightarrow> Inl e
      | Inr homepages \<Rightarrow>
          (let df1 = set_homepages homepages df
           in case for_each (email_step cfg env) (take (limit cfg) df1) of
                Inl e \<Rightarrow> Inl e
              | Inr emails_col \<Rightarrow>
                  Inr (map (result_row cfg now) (set_emails emails_col df1))))"

section \<open>URL syntax\<close>

text \<open>
  Modelled from the spec: the source has no check of URL syntax, and the specification
  names "valid URL syntax" without defining it. The reading here is a necessary condition
  of RFC 3986: a scheme (a letter, then letters, digits, \<open>+\<close>, \<open>-\<close> or \<open>.\<close>), a colon,
  and no space or control character anywhere.
\<close>

definition is_alpha :: "char \<Rightarrow> bool" where
  "is_alpha c = (between (CHR ''a'') (CHR ''z'') c \<or> between (CHR ''A'') (CHR ''Z'') c)"

definition is_scheme_char :: "char \<Rightarrow> bool" where
  "is_scheme_char c =
     (is_alpha c \<or> between (CHR ''0'') (CHR ''9'') c \<or> c \<in> set ''+-.'')"

definition url_syntax :: "string \<Rightarrow> bool" where
  "url_syntax s =
     (case takeWhile (\<lambda>c. c \<noteq> CHR '':'') s of
        [] \<Rightarrow> False
      | c # cs \<Rightarrow>
          is_alpha c \<and> list_all is_scheme_char cs \<and> Suc (length cs) < length s \<and>
          list_all (\<lambda>c. CHR 0x20 < c \<and> c \<noteq> CHR 0x7F) s)"

section \<open>Sample runs\<close>

text \<open>
  Inputs for the concrete runs below: a configuration as the sidebar can produce it (the
  first region of the list, no sub-region, the first industry, the slider at its least
  value), collaborators that give a fixed reply to every call, one listing row and the
  table row expected for it.
\<close>

abbreviation seoul :: string where
  "seoul \<equiv> [CHR 0xEC, CHR 0x84, CHR 0x9C, CHR 0xEC, CHR 0x9A, CHR 0xB8, CHR 0xED, CHR 0x8A,
             CHR 0xB9, CHR 0xEB, CHR 0xB3, CHR 0x84, CHR 0xEC, CHR 0x8B, CHR 0x9C]"

abbreviation medical :: string where
  "medical \<equiv> [CHR 0xEC, CHR 0x9D, CHR 0x98, CHR 0xEB, CHR 0xA3, CHR 0x8C, CHR 0xEA, CHR 0xB8,
               CHR 0xB0, CHR 0xEA, CHR 0xB4, CHR 0x80]"

abbreviation settings :: "bool \<Rightarrow> config" where
  "settings role_only \<equiv>
     \<lparr>sido = seoul, sggu = [], industry = medical, only_role = role_only, limit = 50\<rparr>"

abbreviation replies ::
  "exn + string option \<Rightarrow> exn + string list \<Rightarrow> exn + string list \<Rightarrow> collaborators" where
  "replies searched crawled extracted \<equiv>
     \<lparr>find_homepage_via_bing = (\<lambda>q. searched),
      crawl_site_for_emails = (\<lambda>url max_pages. crawled),
      extract_emails_from_text = (\<lambda>text. extracted)\<rparr>"

abbreviation acme :: "string \<Rightarrow> string \<Rightarrow> listing" where
  "acme hp text \<equiv>
     \<lparr>company_name = Text ''Acme'', address = Text ''1 Main St'', homepage = Text hp,
      email = Text [], remarks = Text text\<rparr>"

abbreviation acme_out :: "string \<Rightarrow> string \<Rightarrow> out_row" where
  "acme_out cell hp \<equiv>
     \<lparr>out_region = seoul, out_industry = medical, out_company = Text ''Acme'',
      out_address = Text ''1 Main St'', out_emails = Text cell, out_homepage = Text hp,
      out_collected = ''2026-01-01 09:00:00''\<rparr>"

section \<open>Facts about \<open>role_priority\<close>\<close>

lemma inj_rank_key: "inj_on rank_key A"
  by (simp add: inj_on_def rank_key_def)

lemma sorted_keys_role_priority: "sorted (map rank_key (role_priority es))"
  by (simp add: role_priority_def)

lemma distinct_role_priority: "distinct (role_priority es)"
  by (simp add: role_priority_def)

lemma set_role_priority: "set (role_priority es) = set es"
  by (simp add: role_priority_def)

text \<open>
  C5, as the code has it. In the output of \<open>role_priority\<close> an address that starts with a
  role prefix never comes after one that does not, and two addresses of the same kind are
  in strictly ascending order of the addresses as written, not of their lower-cased forms.
\<close>

theorem role_priority_order:
  assumes "i < j" and "j < length (role_priority es)"
  shows "(is_role (role_priority es ! j) \<longrightarrow> is_role (role_priority es ! i)) \<and>
         (is_role (role_priority es ! i) = is_role (role_priority es ! j) \<longrightarrow>
            role_priority es ! i < role_priority es ! j)"
proof -
  let ?out = "role_priority es"
  have le: "rank_key (?out ! i) \<le> rank_key (?out ! j)"
    using sorted_keys_role_priority [of es] assms
    by (simp add: sorted_iff_nth_mono)
  have ne: "?out ! i \<noteq> ?out ! j"
    using distinct_role_priority [of es] assms
    by (simp add: nth_eq_iff_index_eq)
  from le ne show ?thesis
    by (auto simp: rank_key_def less_eq_prod_def)
qed

theorem role_priority_order_witness:
  "(0::nat) < 1 \<and> 1 < length (role_priority [''info@b.example'', ''Info@c.example'']) \<and>
   role_priority [''info@b.example'', ''Info@c.example''] ! 0 = ''Info@c.example'' \<and>
   role_priority [''info@b.example'', ''Info@c.example''] ! 1 = ''info@b.example'' \<and>
   ''Info@c.example'' < ''info@b.example''"
proof -
  have ev: "role_priority [''info@b.example'', ''Info@c.example'']
              = [''Info@c.example'', ''info@b.example'']"
    by code_simp
  have h1: "(0::nat) < 1" by simp
  have h2: "1 < length (role_priority [''info@b.example'', ''Info@c.example''])"
    by (simp add: ev)
  have r: "is_role ''Info@c.example'' = is_role ''info@b.example''" by code_simp
  from role_priority_order [OF h1 h2] r show ?thesis
    by (simp add: ev)
qed

text \<open>
  C5 as stated fails: for \<open>info@b.example\<close> and \<open>Info@c.example\<close>, both role addresses,
  the output is not ordered by the lower-cased address.
\<close>

theorem role_priority_lowercase_tiebreak_counterexample:
  "\<not> sorted (map spec_rank_key (role_priority [''info@b.example'', ''Info@c.example'']))"
  by code_simp

text \<open>
  C6, as the code has it. \<open>role_priority\<close> removes exact duplicates only: its output has
  no repeated string, holds the same strings as the input, and its length is the number of
  distinct input strings, two casings of one address counted as two.
\<close>

theorem role_priority_dedup_exact:
  "length (role_priority es) = card (set es) \<and>
   distinct (role_priority es) \<and> set (role_priority es) = set es"
  by (simp add: role_priority_def length_remdups_card_conv)

text \<open>
  C6 as stated fails: two casings of one address both stay in the output, whose length
  then exceeds the number of addresses up to letter case.
\<close>

theorem role_priority_case_insensitive_dedup_counterexample:
  "length (role_priority [''Info@acme.example'', ''info@acme.example''])
     \<noteq> card (lower ` set [''Info@acme.example'', ''info@acme.example''])"
  by code_simp

text \<open>
  C9. The output of \<open>role_priority\<close> depends only on the set of its input strings: two
  lists with the same entries, in any order and with any repetition (a permutation of a
  list among them), give the same output sequence.
\<close>

theorem role_priority_set_only:
  assumes "set xs = set ys"
  shows "role_priority xs = role_priority ys"
proof (rule map_sorted_distinct_set_unique [where f = rank_key])
  show "inj_on rank_key (set (role_priority xs) \<union> set (role_priority ys))"
    by (rule inj_rank_key)
  show "sorted (map rank_key (role_priority xs))" "sorted (map rank_key (role_priority ys))"
    by (rule sorted_keys_role_priority)+
  show "distinct (map rank_key (role_priority xs))" "distinct (map rank_key (role_priority ys))"
    by (simp_all add: distinct_map distinct_role_priority inj_rank_key)
  show "set (role_priority xs) = set (role_priority ys)"
    using assms by (simp add: set_role_priority)
qed

theorem role_priority_set_only_witness:
  "set [''sales@acme.example'', ''info@acme.example'', ''sales@acme.example'']
     = set [''info@acme.example'', ''sales@acme.example''] \<and>
   role_priority [''sales@acme.example'', ''info@acme.example'', ''sales@acme.example'']
     = role_priority [''info@acme.example'', ''sales@acme.example'']"
proof -
  have h: "set [''sales@acme.example'', ''info@acme.example'', ''sales@acme.example'']
     = set [''info@acme.example'', ''sales@acme.example'']"
    by auto
  from role_priority_set_only [OF h] h show ?thesis by simp
qed

section \<open>Facts about the loops and the table\<close>

lemma for_each_length: "for_each body xs = Inr ys \<Longrightarrow> length ys = length xs"
  by (induction xs arbitrary: ys) (auto split: sum.splits)

lemma for_each_nth:
  "for_each body xs = Inr ys \<Longrightarrow> i < length xs \<Longrightarrow> body (xs ! i) = Inr (ys ! i)"
proof (induction xs arbitrary: ys i)
  case Nil
  then show ?case by simp
next
  case (Cons x xs)
  then show ?case
    by (cases i) (auto split: sum.splits)
qed

lemma length_set_homepages: "length (set_homepages hs rs) = length rs"
  by (induction hs rs rule: set_homepages.induct) auto

lemma length_set_emails: "length (set_emails cs rs) = length rs"
  by (induction cs rs rule: set_emails.induct) auto

lemma nth_set_homepages:
  "i < length rs \<Longrightarrow>
   set_homepages hs rs ! i = (if i < length hs then (rs ! i)\<lparr>homepage := Text (hs ! i)\<rparr> else rs ! i)"
proof (induction hs rs arbitrary: i rule: set_homepages.induct)
  case (1 h hs r rs)
  then show ?case by (cases i) auto
qed auto

lemma nth_set_emails:
  "i < length rs \<Longrightarrow>
   set_emails cs rs ! i = (if i < length cs then (rs ! i)\<lparr>email := Text (cs ! i)\<rparr> else rs ! i)"
proof (induction cs rs arbitrary: i rule: set_emails.induct)
  case (1 c cs r rs)
  then show ?case by (cases i) auto
qed auto

lemma strip_nan: "strip ''nan'' = ''nan''"
  by code_simp

lemma homepage_step_missing:
  "homepage_step cfg env (row\<lparr>homepage := NaN\<rparr>) = Inr ''nan''"
  "homepage_step cfg env (row\<lparr>homepage := NoneCell\<rparr>)
     = homepage_step cfg env (row\<lparr>homepage := Text []\<rparr>)"
  by (simp_all add: homepage_step_def str_or_empty_def strip_nan)

lemma pipeline_Inr:
  assumes "pipeline cfg env df now = Inr out"
  obtains homepages emails_col where
    "for_each (homepage_step cfg env) (take (limit cfg) df) = Inr homepages"
    "for_each (email_step cfg env) (take (limit cfg) (set_homepages homepages df)) = Inr emails_col"
    "out = map (result_row cfg now) (set_emails emails_col (set_homepages homepages df))"
  using assms by (auto simp: pipeline_def Let_def split: sum.splits)

lemma for_each_returns:
  assumes "\<And>x. \<exists>y. body x = Inr y"
  shows "\<exists>ys. for_each body xs = Inr ys"
proof (induction xs)
  case Nil
  show ?case by simp
next
  case (Cons x xs)
  from assms obtain y where "body x = Inr y" by blast
  moreover from Cons obtain ys where "for_each body xs = Inr ys" by blast
  ultimately show ?case by simp
qed

lemma pipeline_returns:
  assumes "\<And>row. \<exists>hp. homepage_step cfg env row = Inr hp"
    and "\<And>row. \<exists>cell. email_step cfg env row = Inr cell"
  shows "\<exists>out. pipeline cfg env df now = Inr out"
proof -
  from assms(1) obtain homepages where
    hs: "for_each (homepage_step cfg env) (take (limit cfg) df) = Inr homepages"
    using for_each_returns by blast
  from assms(2) obtain emails_col where
    "for_each (email_step cfg env) (take (limit cfg) (set_homepages homepages df)) = Inr emails_col"
    using for_each_returns by blast
  with hs show ?thesis
    by (simp add: pipeline_def)
qed

lemma pipeline_length:
  assumes "pipeline cfg env df now = Inr out"
  shows "length out = length df"
  using assms by (elim pipeline_Inr) (simp add: length_set_emails length_set_homepages)

lemma pipeline_processed_row:
  assumes run: "pipeline cfg env df now = Inr out"
    and i: "i < limit cfg" "i < length df"
  obtains hp cell where
    "homepage_step cfg env (df ! i) = Inr hp"
    "email_step cfg env ((df ! i)\<lparr>homepage := Text hp\<rparr>) = Inr cell"
    "out ! i = result_row cfg now ((df ! i)\<lparr>homepage := Text hp, email := Text cell\<rparr>)"
proof -
  from run obtain homepages emails_col where
    hs: "for_each (homepage_step cfg env) (take (limit cfg) df) = Inr homepages" and
    cs: "for_each (email_step cfg env) (take (limit cfg) (set_homepages homepages df)) = Inr emails_col" and
    out: "out = map (result_row cfg now) (set_emails emails_col (set_homepages homepages df))"
    by (rule pipeline_Inr)
  let ?df1 = "set_homepages homepages df"
  from i have it: "i < length (take (limit cfg) df)" by simp
  have lh: "length homepages = length (take (limit cfg) df)"
    using hs by (rule for_each_length)
  have le: "length emails_col = length (take (limit cfg) ?df1)"
    using cs by (rule for_each_length)
  have h: "homepage_step cfg env (df ! i) = Inr (homepages ! i)"
    using for_each_nth [OF hs it] i by simp
  have r1: "?df1 ! i = (df ! i)\<lparr>homepage := Text (homepages ! i)\<rparr>"
    using i lh by (simp add: nth_set_homepages)
  have it1: "i < length (take (limit cfg) ?df1)"
    using i by (simp add: length_set_homepages)
  have c: "email_step cfg env ((df ! i)\<lparr>homepage := Text (homepages ! i)\<rparr>) = Inr (emails_col ! i)"
    using for_each_nth [OF cs it1] i r1 by simp
  have "out ! i = result_row cfg now ((df ! i)\<lparr>homepage := Text (homepages ! i), email := Text (emails_col ! i)\<rparr>)"
    using i le it1 r1 by (simp add: out length_set_emails length_set_homepages nth_set_emails)
  with h c show thesis by (rule that)
qed

lemma pipeline_untouched_row:
  assumes run: "pipeline cfg env df now = Inr out"
    and i: "limit cfg \<le> i" "i < length df"
  shows "out ! i = result_row cfg now (df ! i)"
proof -
  from run obtain homepages emails_col where
    hs: "for_each (homepage_step cfg env) (take (limit cfg) df) = Inr homepages" and
    cs: "for_each (email_step cfg env) (take (limit cfg) (set_homepages homepages df)) = Inr emails_col" and
    out: "out = map (result_row cfg now) (set_emails emails_col (set_homepages homepages df))"
    by (rule pipeline_Inr)
  have lh: "length homepages = length (take (limit cfg) df)"
    using hs by (rule for_each_length)
  have le: "length emails_col = length (take (limit cfg) (set_homepages homepages df))"
    using cs by (rule for_each_length)
  show ?thesis
    using i lh le by (simp add: out length_set_emails length_set_homepages nth_set_emails nth_set_homepages)
qed

section \<open>The pipeline, claim by claim\<close>

text \<open>
  C1, a run of the code. The e-mail cell is the de-duplicated list in the order the
  crawl gave it: \<open>pipeline\<close> never calls \<open>role_priority\<close>. With the crawl reply
  \<open>sales@acme.example, info@acme.example\<close> the cell keeps that order, while ranking
  would put \<open>info@acme.example\<close> first.
\<close>

theorem pipeline_emails_unranked:
  "pipeline (settings True)
     (replies (Inr None) (Inr [''sales@acme.example'', ''info@acme.example'']) (Inr []))
     [acme ''https://acme.example/'' []] ''2026-01-01 09:00:00''
   = Inr [acme_out ''sales@acme.example, info@acme.example'' ''https://acme.example/''] \<and>
   emails_cell (role_priority [''sales@acme.example'', ''info@acme.example''])
   = ''info@acme.example, sales@acme.example''"
  by code_simp

text \<open>
  C2, a run of the code. With the limit at 50 and 51 rows in the data frame the returned
  table has 51 rows: the limit bounds the rows that are looked up, not the rows returned.
\<close>

theorem pipeline_rows_beyond_limit:
  "limit (settings True) = 50 \<and>
   map_sum id length
     (pipeline (settings True) (replies (Inr None) (Inr []) (Inr []))
        (replicate 51 (acme ''https://acme.example/'' [])) ''2026-01-01 09:00:00'')
   = Inr 51"
proof -
  let ?env = "replies (Inr None) (Inr []) (Inr [])"
  let ?df = "replicate 51 (acme ''https://acme.example/'' [])"
  have "\<exists>out. pipeline (settings True) ?env ?df ''2026-01-01 09:00:00'' = Inr out"
  proof (rule pipeline_returns)
    show "\<exists>hp. homepage_step (settings True) ?env row = Inr hp" for row
      by (simp add: homepage_step_def Let_def)
    show "\<exists>cell. email_step (settings True) ?env row = Inr cell" for row
      by (simp add: email_step_def collect_emails_def crawl_emails_def Let_def)
  qed
  then obtain out where run: "pipeline (settings True) ?env ?df ''2026-01-01 09:00:00'' = Inr out"
    by blast
  from pipeline_length [OF run] have "length out = 51"
    by simp
  with run show ?thesis
    by simp
qed

text \<open>
  C3, a run of the code. With the role-only toggle on, an address that begins with
  \<open>help@\<close> is removed, although \<open>role_priority\<close> counts it as a role address: the
  prefix list of the filter lacks \<open>help@\<close>.
\<close>

theorem pipeline_filter_drops_help:
  "pipeline (settings True) (replies (Inr None) (Inr [''help@acme.example'']) (Inr []))
     [acme ''https://acme.example/'' []] ''2026-01-01 09:00:00''
   = Inr [acme_out [] ''https://acme.example/''] \<and>
   is_role ''help@acme.example''"
  by code_simp

text \<open>
  C4, two runs of the code. An exception of the homepage search, and one of the text
  extraction on the remarks, leave \<open>pipeline\<close>: no table is returned. Only the crawl
  is inside a \<open>try\<close>.
\<close>

theorem pipeline_search_exception_escapes:
  "pipeline (settings True) (replies (Inl (Exception ''search failed'')) (Inr []) (Inr []))
     [acme [] []] ''2026-01-01 09:00:00''
   = Inl (Exception ''search failed'') \<and>
   pipeline (settings True) (replies (Inr None) (Inr []) (Inl (Exception ''extraction failed'')))
     [acme [] ''ask at the desk''] ''2026-01-01 09:00:00''
   = Inl (Exception ''extraction failed'')"
  by code_simp

text \<open>
  C7, as the code has it. For a row within the limit of a run that returns a table, let
  the existing homepage be the row's homepage cell read by \<open>str(cell or "")\<close> (a text
  cell as itself, \<open>None\<close> as the empty string) and stripped. If it is non-empty, it is
  the homepage written to the table, whatever its syntax, and the lookup step gives it
  with any collaborators, so the search is not called. If it is empty, the search has
  replied and the homepage written is that reply, or the empty string when the reply is
  \<open>None\<close>.
\<close>

theorem homepage_resolution:
  assumes "pipeline cfg env df now = Inr out" and "i < limit cfg" and "i < length df"
  shows "(strip (str_or_empty (homepage (df ! i))) \<noteq> [] \<longrightarrow>
            out_homepage (out ! i) = Text (strip (str_or_empty (homepage (df ! i)))) \<and>
            homepage_step cfg other (df ! i) = Inr (strip (str_or_empty (homepage (df ! i))))) \<and>
         (strip (str_or_empty (homepage (df ! i))) = [] \<longrightarrow>
            (\<exists>found. find_homepage_via_bing env
                        (search_query cfg (strip (py_str (company_name (df ! i))))) = Inr found \<and>
                     out_homepage (out ! i)
                       = Text (case found of None \<Rightarrow> [] | Some url \<Rightarrow> url)))"
proof -
  from assms obtain hp cell where
    hp: "homepage_step cfg env (df ! i) = Inr hp" and
    row: "out ! i = result_row cfg now ((df ! i)\<lparr>homepage := Text hp, email := Text cell\<rparr>)"
    by (rule pipeline_processed_row)
  have written: "out_homepage (out ! i) = Text hp"
    by (simp add: row result_row_def)
  show ?thesis
    using hp unfolding written
    by (auto simp: homepage_step_def Let_def split: sum.splits)
qed

theorem homepage_resolution_witness:
  "out_homepage ([acme_out [] ''no homepage''] ! 0) = Text ''no homepage'' \<and>
   homepage_step (settings True) (replies (Inl (Exception ''search failed'')) (Inr []) (Inr []))
     ([acme '' no homepage '' []] ! 0) = Inr ''no homepage'' \<and>
   strip (str_or_empty (homepage ([(acme [] [])\<lparr>homepage := NoneCell\<rparr>] ! 0))) = [] \<and>
   out_homepage ([acme_out [] ''https://acme.example/''] ! 0) = Text ''https://acme.example/''"
proof -
  let ?cfg = "settings True"
  let ?now = "''2026-01-01 09:00:00''"
  let ?down = "replies (Inl (Exception ''search failed'')) (Inr []) (Inr [])"
  let ?up = "replies (Inr (Some ''https://acme.example/'')) (Inr []) (Inr [])"
  have run1: "pipeline ?cfg ?down [acme '' no homepage '' []] ?now
                = Inr [acme_out [] ''no homepage'']"
    by code_simp
  have run2: "pipeline ?cfg ?up [(acme [] [])\<lparr>homepage := NoneCell\<rparr>] ?now
                = Inr [acme_out [] ''https://acme.example/'']"
    by code_simp
  have lim: "0 < limit ?cfg" by simp
  have s1: "strip (str_or_empty (homepage ([acme '' no homepage '' []] ! 0))) = ''no homepage''"
    by code_simp
  have s2: "strip (str_or_empty (homepage ([(acme [] [])\<lparr>homepage := NoneCell\<rparr>] ! 0))) = []"
    by code_simp
  have a: "out_homepage ([acme_out [] ''no homepage''] ! 0) = Text ''no homepage'' \<and>
           homepage_step ?cfg ?down ([acme '' no homepage '' []] ! 0) = Inr ''no homepage''"
    using homepage_resolution [OF run1 lim, of ?down] unfolding s1 by simp
  have b: "out_homepage ([acme_out [] ''https://acme.example/''] ! 0)
             = Text ''https://acme.example/''"
    using homepage_resolution [OF run2 lim, of ?up] unfolding s2 by simp
  from a s2 b show ?thesis by simp
qed

text \<open>
  C7 as stated fails: the homepage cell \<open>no homepage\<close> is kept as the homepage,
  with a search that would have raised had it been called, and it is not a URL.
\<close>

theorem homepage_unchecked_counterexample:
  "pipeline (settings True) (replies (Inl (Exception ''search failed'')) (Inr []) (Inr []))
     [acme '' no homepage '' []] ''2026-01-01 09:00:00''
   = Inr [acme_out [] ''no homepage''] \<and>
   ''no homepage'' \<noteq> [] \<and> \<not> url_syntax ''no homepage''"
  by code_simp

text \<open>
  C8. With the role-only toggle on, a row within the limit whose collected addresses
  (from the crawl, or from the remarks when the crawl found none) all fail the filter
  ends with an empty e-mail cell: nothing is looked up again after the filter.
\<close>

theorem role_filter_strict:
  assumes "pipeline cfg env df now = Inr out" and "only_role cfg"
    and "i < limit cfg" and "i < length df"
    and "homepage_step cfg env (df ! i) = Inr hp"
    and "collect_emails env ((df ! i)\<lparr>homepage := Text hp\<rparr>) = Inr found"
    and "\<forall>e \<in> set found. \<not> passes_filter e"
  shows "out_emails (out ! i) = Text []"
proof -
  from assms(1,3,4) obtain hp' cell where
    hp': "homepage_step cfg env (df ! i) = Inr hp'" and
    cell: "email_step cfg env ((df ! i)\<lparr>homepage := Text hp'\<rparr>) = Inr cell" and
    row: "out ! i = result_row cfg now ((df ! i)\<lparr>homepage := Text hp', email := Text cell\<rparr>)"
    by (rule pipeline_processed_row)
  from hp' assms(5) have "hp' = hp" by simp
  have "filter passes_filter found = []"
    using assms(7) by (simp add: filter_empty_conv)
  then have "role_filter cfg found = []"
    using assms(2) by (simp add: role_filter_def)
  with cell assms(6) \<open>hp' = hp\<close> have "cell = []"
    by (simp add: email_step_def emails_cell_def)
  then show ?thesis
    by (simp add: row result_row_def)
qed

theorem role_filter_strict_witness:
  "pipeline (settings True) (replies (Inr None) (Inr [''jane.doe@acme.example'']) (Inr []))
     [acme ''https://acme.example/'' ''ask info@acme.example'']  ''2026-01-01 09:00:00''
     = Inr [acme_out [] ''https://acme.example/''] \<and>
   collect_emails (replies (Inr None) (Inr [''jane.doe@acme.example'']) (Inr []))
     (([acme ''https://acme.example/'' ''ask info@acme.example''] ! 0)\<lparr>homepage := Text ''https://acme.example/''\<rparr>)
     = Inr [''jane.doe@acme.example''] \<and>
   out_emails ([acme_out [] ''https://acme.example/''] ! 0) = Text []"
proof -
  let ?cfg = "settings True"
  let ?env = "replies (Inr None) (Inr [''jane.doe@acme.example'']) (Inr [])"
  let ?df = "[acme ''https://acme.example/'' ''ask info@acme.example'']"
  have run: "pipeline ?cfg ?env ?df ''2026-01-01 09:00:00'' = Inr [acme_out [] ''https://acme.example/'']"
    by code_simp
  have role: "only_role ?cfg" by simp
  have lim: "0 < limit ?cfg" by simp
  have len: "0 < length ?df" by simp
  have hp: "homepage_step ?cfg ?env (?df ! 0) = Inr ''https://acme.example/''"
    by code_simp
  have found: "collect_emails ?env ((?df ! 0)\<lparr>homepage := Text ''https://acme.example/''\<rparr>)
                 = Inr [''jane.doe@acme.example'']"
    by code_simp
  have none: "\<forall>e \<in> set [''jane.doe@acme.example'']. \<not> passes_filter e"
    by code_simp
  from role_filter_strict [OF run role lim len hp found none] run found
  show ?thesis by simp
qed

text \<open>
  C10. Every row of the returned table carries the same collection time, the one reading
  of the clock taken when the table is put together.
\<close>

theorem timestamp_shared:
  assumes "pipeline cfg env df now = Inr out" and "r \<in> set out"
  shows "out_collected r = now"
proof -
  from assms(1) obtain rows where "out = map (result_row cfg now) rows"
    by (rule pipeline_Inr)
  with assms(2) show ?thesis
    by (auto simp: result_row_def)
qed

theorem timestamp_shared_witness:
  "pipeline (settings False) (replies (Inr None) (Inr [''info@acme.example'']) (Inr []))
     [acme ''https://acme.example/'' [], acme [] []] ''2026-01-01 09:00:00''
     = Inr [acme_out ''info@acme.example'' ''https://acme.example/'', acme_out [] []] \<and>
   acme_out [] [] \<in> set [acme_out ''info@acme.example'' ''https://acme.example/'', acme_out [] []] \<and>
   out_collected (acme_out [] []) = ''2026-01-01 09:00:00''"
proof -
  have run: "pipeline (settings False) (replies (Inr None) (Inr [''info@acme.example'']) (Inr []))
     [acme ''https://acme.example/'' [], acme [] []] ''2026-01-01 09:00:00''
     = Inr [acme_out ''info@acme.example'' ''https://acme.example/'', acme_out [] []]"
    by code_simp
  have mem: "acme_out [] [] \<in> set [acme_out ''info@acme.example'' ''https://acme.example/'', acme_out [] []]"
    by simp
  from timestamp_shared [OF run mem] run mem show ?thesis by simp
qed

end
